theory Spec2Isabelle
  imports Main
begin

section \<open>Device-scoped tokens of backend/routers/auth.py\<close>

text \<open>
  The development embeds the FastAPI router \<^verbatim>\<open>backend/routers/auth.py\<close>: the
  SQLAlchemy session as an explicit state, every \<^verbatim>\<open>raise\<close> as a value, the
  clock, the UUID generator, the secret generator and the outcome of each commit as
  oracles that the state carries and the code consumes in the order it calls them.
\<close>

subsection \<open>Python values and dictionaries\<close>

type_synonym timestamp = int
  \<comment> \<open>a \<^verbatim>\<open>datetime\<close> in UTC as whole seconds; a \<^verbatim>\<open>timedelta\<close> likewise\<close>

datatype pyval =
    PNone
  | PStr string
  | PInt int
  | PDatetime timestamp
  | PIso timestamp  \<comment> \<open>the \<^verbatim>\<open>str\<close> that \<^verbatim>\<open>isoformat()\<close> gives for a datetime\<close>

type_synonym dict = "(string \<times> pyval) list"
  \<comment> \<open>a Python dict: keys in insertion order, no key twice\<close>

definition dict_get :: "dict \<Rightarrow> string \<Rightarrow> pyval" where
  \<comment> \<open>\<^verbatim>\<open>d.get(k)\<close>: None for a key that is absent\<close>
  "dict_get d k = (case map_of d k of None \<Rightarrow> PNone | Some v \<Rightarrow> v)"

fun dict_update :: "dict \<Rightarrow> string \<Rightarrow> pyval \<Rightarrow> dict" where
  \<comment> \<open>\<^verbatim>\<open>d.update({k: v})\<close>\<close>
  "dict_update [] k v = [(k, v)]"
| "dict_update ((k', v') # d) k v =
     (if k' = k then (k, v) # d else (k', v') # dict_update d k v)"




subsection \<open>Rows\<close>

text \<open>
  \<^verbatim>\<open>database.User\<close>. The \<^verbatim>\<open>Device\<close> class that auth.py imports from
  database.py is not among the sources; its columns are those the constructor calls of
  auth.py set and the migration \<^verbatim>\<open>add_device_table\<close> creates. The surrogate key
  \<^verbatim>\<open>Device.id\<close> is only printed, never read, and is left out.
\<close>

record user =
  uid :: string  \<comment> \<open>column \<^verbatim>\<open>id\<close>\<close>
  username :: string
  email :: string
  password_hash :: "string option"
  tier :: string
  subscription_valid_until :: "timestamp option"
  last_tool_run_at :: "timestamp option"
  created_at :: timestamp
  updated_at :: timestamp

record device =
  device_id :: string
  device_name :: "string option"
  device_type :: "string option"
  jwt_secret_key :: string
  user_id :: string
  is_active :: bool
  last_used_at :: timestamp
  dev_created_at :: timestamp
  dev_updated_at :: timestamp

subsection \<open>Exceptions\<close>

datatype exn =
    HTTPException nat string  \<comment> \<open>status_code, detail\<close>
  | JWTError  \<comment> \<open>\<^verbatim>\<open>jose.exceptions.JWTError\<close> and its subclasses\<close>
  | SQLAlchemyError  \<comment> \<open>what a refused commit raises\<close>
  | ValidationError  \<comment> \<open>what a pydantic constructor raises\<close>


subsection \<open>The session and the environment\<close>

text \<open>
  \<^verbatim>\<open>users\<close> and \<^verbatim>\<open>devices\<close> are the committed rows of the two tables, in
  insertion order. \<^verbatim>\<open>new_users\<close>, \<^verbatim>\<open>new_devices\<close> and \<^verbatim>\<open>dirty\<close> are what the
  session holds between \<^verbatim>\<open>db.add\<close> (or an attribute assignment on a loaded row)
  and the next commit; the session is created with \<^verbatim>\<open>autoflush=False\<close>, so queries
  read the committed rows only. The oracles: \<^verbatim>\<open>clock\<close> gives the successive readings
  of \<^verbatim>\<open>datetime.now(timezone.utc)\<close>, \<^verbatim>\<open>uuids\<close> those of \<^verbatim>\<open>uuid.uuid4()\<close>,
  \<^verbatim>\<open>secrets\<close> those of \<^verbatim>\<open>secrets.token_urlsafe(32)\<close>, and \<^verbatim>\<open>commit_ok\<close> says of
  each \<^verbatim>\<open>db.commit()\<close> in turn whether the database accepts it (a constraint violation
  or a lost connection makes it raise).
\<close>

record world =
  users :: "user list"
  devices :: "device list"
  new_users :: "user list"
  new_devices :: "device list"
  dirty :: "(nat \<times> timestamp) list"  \<comment> \<open>row index, new \<^verbatim>\<open>last_used_at\<close>\<close>
  clock :: "nat \<Rightarrow> timestamp"
  uuids :: "nat \<Rightarrow> string"
  secrets :: "nat \<Rightarrow> string"
  commit_ok :: "nat \<Rightarrow> bool"
  n_clock :: nat
  n_uuid :: nat
  n_secret :: nat
  n_commit :: nat

type_synonym 'a result = "(exn + 'a) \<times> world"

definition now :: "world \<Rightarrow> timestamp \<times> world" where
  "now w = (clock w (n_clock w), w\<lparr>n_clock := Suc (n_clock w)\<rparr>)"

definition uuid4 :: "world \<Rightarrow> string \<times> world" where
  "uuid4 w = (uuids w (n_uuid w), w\<lparr>n_uuid := Suc (n_uuid w)\<rparr>)"

definition token_urlsafe :: "world \<Rightarrow> string \<times> world" where
  "token_urlsafe w = (secrets w (n_secret w), w\<lparr>n_secret := Suc (n_secret w)\<rparr>)"

definition db_add_user :: "user \<Rightarrow> world \<Rightarrow> world" where
  "db_add_user u w = w\<lparr>new_users := new_users w @ [u]\<rparr>"

definition db_add_device :: "device \<Rightarrow> world \<Rightarrow> world" where
  "db_add_device d w = w\<lparr>new_devices := new_devices w @ [d]\<rparr>"

definition set_last_used_at :: "nat \<Rightarrow> timestamp \<Rightarrow> world \<Rightarrow> world" where
  \<comment> \<open>\<^verbatim>\<open>device.last_used_at = t\<close> on the loaded row at index i\<close>
  "set_last_used_at i t w = w\<lparr>dirty := dirty w @ [(i, t)]\<rparr>"

definition touch :: "nat \<times> timestamp \<Rightarrow> device list \<Rightarrow> device list" where
  "touch it ds = ds[fst it := (ds ! fst it)\<lparr>last_used_at := snd it\<rparr>]"

definition flush :: "world \<Rightarrow> world" where
  "flush w = w\<lparr>users := users w @ new_users w,
               devices := fold touch (dirty w) (devices w) @ new_devices w,
               new_users := [], new_devices := [], dirty := []\<rparr>"

definition db_commit :: "world \<Rightarrow> unit result" where
  "db_commit w =
     (let w1 = w\<lparr>n_commit := Suc (n_commit w)\<rparr>
      in if commit_ok w (n_commit w) then (Inr (), flush w1) else (Inl SQLAlchemyError, w1))"

definition db_rollback :: "world \<Rightarrow> world" where
  "db_rollback w = w\<lparr>new_users := [], new_devices := [], dirty := []\<rparr>"

fun first_index :: "('a \<Rightarrow> bool) \<Rightarrow> 'a list \<Rightarrow> nat option" where
  \<comment> \<open>\<^verbatim>\<open>query.filter(P).first()\<close>: the position of the first row that satisfies P\<close>
  "first_index P [] = None"
| "first_index P (x # xs) =
     (if P x then Some 0 else map_option Suc (first_index P xs))"

subsection \<open>Configuration\<close>

definition JWT_ALGORITHM :: string where
  "JWT_ALGORITHM = ''HS256''"

definition JWT_ACCESS_TOKEN_EXPIRE_DAYS :: int where
  "JWT_ACCESS_TOKEN_EXPIRE_DAYS = 7"

definition days :: "int \<Rightarrow> timestamp" where
  \<comment> \<open>\<^verbatim>\<open>timedelta(days=n)\<close>\<close>
  "days n = n * 86400"

subsection \<open>The token library\<close>

text \<open>
  python-jose is a dependency, not part of the sources. A token is the parsed compact
  form: the header's algorithm, the claims and the signature. The signature is symbolic,
  the key and the signed content, so that a check succeeds exactly when both are the ones
  the signature was made from; a string that is no compact token is \<^verbatim>\<open>Garbage\<close>.
\<close>

datatype mac = Mac string string dict  \<comment> \<open>key, algorithm, claims\<close>

datatype token = Garbage string | Compact string dict mac

fun to_timestamp :: "string \<times> pyval \<Rightarrow> string \<times> pyval" where
  "to_timestamp (k, PDatetime t) =
     (if k \<in> {''exp'', ''iat'', ''nbf''} then (k, PInt t) else (k, PDatetime t))"
| "to_timestamp (k, v) = (k, v)"

definition jwt_encode :: "dict \<Rightarrow> string \<Rightarrow> string \<Rightarrow> token" where
  \<comment> \<open>Modelled from the spec: \<^verbatim>\<open>jose.jwt.encode(claims, key, algorithm)\<close>, which signs
      the claims with HMAC over the key under the fixed algorithm identifier; datetime
      values of the time claims are written as integers.\<close>
  "jwt_encode claims key alg =
     (let c = map to_timestamp claims in Compact alg c (Mac key alg c))"



subsection \<open>Issuing: create_device_specific_jwt\<close>

definition create_device_specific_jwt ::
  "string \<Rightarrow> string \<Rightarrow> string \<Rightarrow> timestamp option \<Rightarrow> world \<Rightarrow> token \<times> world" where
  "create_device_specific_jwt user_id' device_id' device_secret expires_delta w =
     (let (t_iat, w1) = now w;
          to_encode = [(''sub'', PStr user_id'), (''device_id'', PStr device_id'),
                       (''iat'', PDatetime t_iat)];
          (t, w2) = now w1;
          expire = (case expires_delta of
                      Some delta \<Rightarrow>
                        if delta \<noteq> 0 then t + delta
                        else t + days JWT_ACCESS_TOKEN_EXPIRE_DAYS
                    | None \<Rightarrow> t + days JWT_ACCESS_TOKEN_EXPIRE_DAYS);
          to_encode = dict_update to_encode ''exp'' (PDatetime expire)
      in (jwt_encode to_encode device_secret JWT_ALGORITHM, w2))"

subsection \<open>Verifying: verify_device_token\<close>




subsection \<open>Response models\<close>

text \<open>
  pydantic is a dependency too. A model instance is the dictionary of its declared
  fields, in declaration order; the constructor drops every other keyword, and raises
  when a \<^verbatim>\<open>str\<close> field is given something that is not a string.
\<close>

fun is_str :: "pyval \<Rightarrow> bool" where
  "is_str (PStr s) = True"
| "is_str (PIso t) = True"
| "is_str v = False"

definition UserResponse :: "dict \<Rightarrow> exn + dict" where
  \<comment> \<open>\<^verbatim>\<open>id, username, email, tier: str\<close>,
      \<^verbatim>\<open>subscription_valid_until: Optional[str] = None\<close>, \<^verbatim>\<open>created_at: str\<close>\<close>
  "UserResponse kwargs =
     (if (\<forall>f \<in> set [''id'', ''username'', ''email'', ''tier'', ''created_at''].
            is_str (dict_get kwargs f))
         \<and> (is_str (dict_get kwargs ''subscription_valid_until'')
            \<or> dict_get kwargs ''subscription_valid_until'' = PNone)
      then Inr (map (\<lambda>f. (f, dict_get kwargs f))
                  [''id'', ''username'', ''email'', ''tier'', ''subscription_valid_until'',
                   ''created_at''])
      else Inl ValidationError)"

definition UserResponse_of :: "user \<Rightarrow> exn + dict" where
  \<comment> \<open>the constructor call that register, login, auto_connect and auto_login each
      write out for a user row\<close>
  "UserResponse_of u =
     UserResponse
       [(''id'', PStr (uid u)), (''username'', PStr (username u)), (''email'', PStr (email u)),
        (''tier'', PStr (tier u)),
        (''subscription_valid_until'',
           case subscription_valid_until u of None \<Rightarrow> PNone | Some t \<Rightarrow> PIso t),
        (''created_at'', PIso (created_at u))]"

record TokenResponse =
  access_token :: token
  token_type :: string
  user :: dict

record UserCreate =
  req_username :: string
  req_email :: string

record DeviceConnectRequest =
  device_fingerprint :: string
  req_device_name :: "string option"  \<comment> \<open>\<^verbatim>\<open>device_name\<close>\<close>
  req_device_type :: "string option"  \<comment> \<open>\<^verbatim>\<open>device_type\<close>\<close>

definition respond :: "token \<Rightarrow> user \<Rightarrow> world \<Rightarrow> TokenResponse result" where
  \<comment> \<open>\<^verbatim>\<open>return TokenResponse(access_token=..., token_type="bearer",
      user=UserResponse(...))\<close>\<close>
  "respond tok u w =
     (case UserResponse_of u of
        Inl e \<Rightarrow> (Inl e, w)
      | Inr view \<Rightarrow> (Inr \<lparr>access_token = tok, token_type = ''bearer'', user = view\<rparr>, w))"

subsection \<open>Device registry: get_or_create_device_for_fingerprint\<close>

definition owned_active :: "string \<Rightarrow> string \<Rightarrow> device \<Rightarrow> bool" where
  "owned_active fp u row = (device_id row = fp \<and> user_id row = u \<and> is_active row)"

definition get_or_create_device_for_fingerprint ::
  "string \<Rightarrow> string option \<Rightarrow> string option \<Rightarrow> string \<Rightarrow> world \<Rightarrow> device result" where
  "get_or_create_device_for_fingerprint fp name type user_id' w =
     (case first_index (owned_active fp user_id') (devices w) of
        Some i \<Rightarrow>
          (let (t, w1) = now w;
               w2 = set_last_used_at i t w1
           in case db_commit w2 of
                (Inl e, w3) \<Rightarrow> (Inl e, w3)
              | (Inr x, w3) \<Rightarrow> (Inr (devices w3 ! i), w3))
      | None \<Rightarrow>
          (let (device_secret, w1) = token_urlsafe w;
               (t, w2) = now w1;
               new_device = \<lparr>device_id = fp, device_name = name, device_type = type,
                             jwt_secret_key = device_secret, user_id = user_id',
                             is_active = True, last_used_at = t,
                             dev_created_at = t, dev_updated_at = t\<rparr>;
               w3 = db_add_device new_device w2
           in case db_commit w3 of
                (Inl e, w4) \<Rightarrow> (Inl e, w4)
              | (Inr x, w4) \<Rightarrow> (Inr new_device, w4)))"

subsection \<open>Session context: get_current_user and GET /auth/me\<close>






subsection \<open>User provisioning: register, login, auto_connect, auto_login\<close>

definition new_user :: "string \<Rightarrow> string \<Rightarrow> string \<Rightarrow> timestamp \<Rightarrow> user" where
  \<comment> \<open>\<^verbatim>\<open>DBUser(id=..., username=..., email=..., tier="essential",
      subscription_valid_until=None, last_tool_run_at=None, created_at=now,
      updated_at=now)\<close>\<close>
  "new_user i n e t =
     \<lparr>uid = i, username = n, email = e, password_hash = None, tier = ''essential'',
      subscription_valid_until = None, last_tool_run_at = None,
      created_at = t, updated_at = t\<rparr>"

definition web_device :: "string \<Rightarrow> string \<Rightarrow> string \<Rightarrow> timestamp \<Rightarrow> device" where
  \<comment> \<open>\<^verbatim>\<open>DBDevice(device_id=..., device_name="Web Browser", device_type="web",
      jwt_secret_key=..., user_id=..., is_active=True, last_used_at=now, created_at=now,
      updated_at=now)\<close>\<close>
  "web_device d k u t =
     \<lparr>device_id = d, device_name = Some ''Web Browser'', device_type = Some ''web'',
      jwt_secret_key = k, user_id = u, is_active = True, last_used_at = t,
      dev_created_at = t, dev_updated_at = t\<rparr>"

definition register_try :: "UserCreate \<Rightarrow> world \<Rightarrow> TokenResponse result" where
  "register_try user_data w =
     (case find (\<lambda>row. email row = req_email user_data) (users w) of
        Some existing_user \<Rightarrow> (Inl (HTTPException 400 ''Email already registered''), w)
      | None \<Rightarrow>
          (let (user_id', w1) = uuid4 w;
               (t, w2) = now w1;
               db_user = new_user user_id' (req_username user_data) (req_email user_data) t;
               w3 = db_add_user db_user w2
           in case db_commit w3 of
                (Inl e, w4) \<Rightarrow> (Inl e, w4)
              | (Inr x, w4) \<Rightarrow>
                  (let (device_id', w5) = uuid4 w4;
                       (device_secret, w6) = token_urlsafe w5;
                       w7 = db_add_device (web_device device_id' device_secret user_id' t) w6
                   in case db_commit w7 of
                        (Inl e, w8) \<Rightarrow> (Inl e, w8)
                      | (Inr y, w8) \<Rightarrow>
                          (let (tok, w9) =
                                 create_device_specific_jwt user_id' device_id' device_secret
                                   None w8
                           in respond tok db_user w9))))"

definition register :: "UserCreate \<Rightarrow> world \<Rightarrow> TokenResponse result" where
  \<comment> \<open>\<^verbatim>\<open>except HTTPException: raise\<close>, then \<^verbatim>\<open>except Exception\<close>: rollback and 500\<close>
  "register user_data w =
     (case register_try user_data w of
        (Inr r, w') \<Rightarrow> (Inr r, w')
      | (Inl (HTTPException c d), w') \<Rightarrow> (Inl (HTTPException c d), w')
      | (Inl e, w') \<Rightarrow>
          (Inl (HTTPException 500 ''An internal server error occurred during registration''),
           db_rollback w'))"

definition login_try :: "UserCreate \<Rightarrow> world \<Rightarrow> TokenResponse result" where
  "login_try user_data w =
     (case find (\<lambda>row. email row = req_email user_data) (users w) of
        None \<Rightarrow> register user_data w
      | Some row \<Rightarrow>
          (let (device_id', w1) = uuid4 w;
               (device_secret, w2) = token_urlsafe w1;
               (t, w3) = now w2;
               w4 = db_add_device (web_device device_id' device_secret (uid row) t) w3
           in case db_commit w4 of
                (Inl e, w5) \<Rightarrow> (Inl e, w5)
              | (Inr x, w5) \<Rightarrow>
                  (let (tok, w6) =
                         create_device_specific_jwt (uid row) device_id' device_secret None w5
                   in respond tok row w6)))"

definition login :: "UserCreate \<Rightarrow> world \<Rightarrow> TokenResponse result" where
  "login user_data w =
     (case login_try user_data w of
        (Inr r, w') \<Rightarrow> (Inr r, w')
      | (Inl (HTTPException c d), w') \<Rightarrow> (Inl (HTTPException c d), w')
      | (Inl e, w') \<Rightarrow>
          (Inl (HTTPException 500 ''An internal server error occurred during login''),
           db_rollback w'))"

definition connect_as ::
  "DeviceConnectRequest \<Rightarrow> user \<Rightarrow> world \<Rightarrow> TokenResponse result" where
  \<comment> \<open>the tail both branches of auto_connect share: resolve the device, sign, respond\<close>
  "connect_as device_request row w =
     (case get_or_create_device_for_fingerprint (device_fingerprint device_request)
             (req_device_name device_request) (req_device_type device_request) (uid row) w of
        (Inl e, w1) \<Rightarrow> (Inl e, w1)
      | (Inr dev, w1) \<Rightarrow>
          (let (tok, w2) =
                 create_device_specific_jwt (uid row) (device_id dev) (jwt_secret_key dev)
                   None w1
           in respond tok row w2))"

definition auto_connect_try :: "DeviceConnectRequest \<Rightarrow> world \<Rightarrow> TokenResponse result" where
  "auto_connect_try device_request w =
     (case users w of
        existing_user # rest \<Rightarrow> connect_as device_request existing_user w
      | [] \<Rightarrow>
          (let (user_id', w1) = uuid4 w;
               (t, w2) = now w1;
               db_user = new_user user_id' ''Demo User'' ''demo@example.com'' t;
               w3 = db_add_user db_user w2
           in case db_commit w3 of
                (Inl e, w4) \<Rightarrow> (Inl e, w4)
              | (Inr x, w4) \<Rightarrow> connect_as device_request db_user w4))"

definition auto_connect :: "DeviceConnectRequest \<Rightarrow> world \<Rightarrow> TokenResponse result" where
  \<comment> \<open>a single \<^verbatim>\<open>except Exception\<close>: rollback and 500\<close>
  "auto_connect device_request w =
     (case auto_connect_try device_request w of
        (Inr r, w') \<Rightarrow> (Inr r, w')
      | (Inl e, w') \<Rightarrow>
          (Inl (HTTPException 500 ''An internal server error occurred during auto-connect''),
           db_rollback w'))"

definition auto_login_try :: "world \<Rightarrow> TokenResponse result" where
  "auto_login_try w =
     (case users w of
        existing_user # rest \<Rightarrow>
          (let (device_id', w1) = uuid4 w;
               (device_secret, w2) = token_urlsafe w1;
               (t, w3) = now w2;
               w4 = db_add_device
                      (web_device device_id' device_secret (uid existing_user) t) w3
           in case db_commit w4 of
                (Inl e, w5) \<Rightarrow> (Inl e, w5)
              | (Inr x, w5) \<Rightarrow>
                  (let (tok, w6) =
                         create_device_specific_jwt (uid existing_user) device_id'
                           device_secret None w5
                   in respond tok existing_user w6))
      | [] \<Rightarrow>
          (let (user_id', w1) = uuid4 w;
               (t, w2) = now w1;
               db_user = new_user user_id' ''Demo User'' ''demo@example.com'' t;
               w3 = db_add_user db_user w2
           in case db_commit w3 of
                (Inl e, w4) \<Rightarrow> (Inl e, w4)
              | (Inr x, w4) \<Rightarrow>
                  (let (device_id', w5) = uuid4 w4;
                       (device_secret, w6) = token_urlsafe w5;
                       w7 = db_add_device (web_device device_id' device_secret user_id' t) w6
                   in case db_commit w7 of
                        (Inl e, w8) \<Rightarrow> (Inl e, w8)
                      | (Inr y, w8) \<Rightarrow>
                          (let (tok, w9) =
                                 create_device_specific_jwt user_id' device_id' device_secret
                                   None w8
                           in respond tok db_user w9))))"

definition auto_login :: "world \<Rightarrow> TokenResponse result" where
  "auto_login w =
     (case auto_login_try w of
        (Inr r, w') \<Rightarrow> (Inr r, w')
      | (Inl e, w') \<Rightarrow>
          (Inl (HTTPException 500 ''An internal server error occurred during auto-login''),
           db_rollback w'))"

subsection \<open>Predicates of the statements\<close>

definition clean :: "world \<Rightarrow> bool" where
  \<comment> \<open>a session as \<^verbatim>\<open>get_db\<close> hands it to a request: nothing pending\<close>
  "clean w = (new_users w = [] \<and> new_devices w = [] \<and> dirty w = [])"

definition devices_of :: "string \<Rightarrow> world \<Rightarrow> device list" where
  \<comment> \<open>the committed device rows of one user\<close>
  "devices_of u w = filter (\<lambda>row. user_id row = u) (devices w)"

definition claims_of :: "token \<Rightarrow> dict" where
  "claims_of tok = (case tok of Compact alg c sg \<Rightarrow> c | Garbage s \<Rightarrow> [])"

subsection \<open>Example data\<close>

definition demo_world :: world where
  "demo_world =
     \<lparr>users = [], devices = [], new_users = [], new_devices = [], dirty = [],
      clock = (\<lambda>n. 1000 + int n),
      uuids = (\<lambda>n. replicate (Suc n) CHR ''u''),
      secrets = (\<lambda>n. replicate (Suc n) CHR ''k''),
      commit_ok = (\<lambda>n. True),
      n_clock = 0, n_uuid = 0, n_secret = 0, n_commit = 0\<rparr>"

definition alice :: user where
  "alice = new_user ''user-1'' ''alice'' ''alice@example.com'' 100"

definition phone :: device where
  "phone = web_device ''dev-A'' ''key-A'' ''user-1'' 100"

definition laptop :: device where
  "laptop = web_device ''dev-B'' ''key-B'' ''user-1'' 200"

definition home_world :: world where
  "home_world = demo_world\<lparr>users := [alice], devices := [phone, laptop]\<rparr>"

definition alice_request :: UserCreate where
  "alice_request = \<lparr>req_username = ''alice'', req_email = ''alice@example.com''\<rparr>"








definition flaky_world :: world where
  \<comment> \<open>an empty store that accepts the first commit and refuses the second\<close>
  "flaky_world = demo_world\<lparr>commit_ok := (\<lambda>n. n = 0)\<rparr>"

definition abc_request :: DeviceConnectRequest where
  "abc_request = \<lparr>device_fingerprint = ''abc123'', req_device_name = Some ''Web Browser'',
                  req_device_type = Some ''web''\<rparr>"

definition monotone_clock :: "world \<Rightarrow> bool" where
  \<comment> \<open>the clock never runs backwards\<close>
  "monotone_clock w = (\<forall>i j. i \<le> j \<longrightarrow> clock w i \<le> clock w j)"

definition fk_ok :: "world \<Rightarrow> bool" where
  \<comment> \<open>the foreign key of the migration: every device row's user_id is the id of a user row\<close>
  "fk_ok w = (\<forall>row \<in> set (devices w). user_id row \<in> uid ` set (users w))"

definition xyz_request :: DeviceConnectRequest where
  "xyz_request = \<lparr>device_fingerprint = ''xyz999'', req_device_name = None,
                  req_device_type = None\<rparr>"

section \<open>Properties\<close>

subsection \<open>Auxiliary facts\<close>

lemma UserResponse_of_ok:
  "UserResponse_of u =
     Inr [(''id'', PStr (uid u)), (''username'', PStr (username u)), (''email'', PStr (email u)),
          (''tier'', PStr (tier u)),
          (''subscription_valid_until'',
             case subscription_valid_until u of None \<Rightarrow> PNone | Some t \<Rightarrow> PIso t),
          (''created_at'', PIso (created_at u))]"
  by (cases "subscription_valid_until u") (simp_all add: UserResponse_of_def UserResponse_def dict_get_def)

lemma respond_ok:
  "\<exists>view. respond tok u w = (Inr \<lparr>access_token = tok, token_type = ''bearer'', user = view\<rparr>, w)"
  by (simp add: respond_def UserResponse_of_ok)

lemma create_device_specific_jwt_eq:
  "create_device_specific_jwt u d s delta w =
     (let c = [(''sub'', PStr u), (''device_id'', PStr d), (''iat'', PInt (clock w (n_clock w))),
               (''exp'', PInt (clock w (Suc (n_clock w)) +
                   (case delta of Some x \<Rightarrow> if x \<noteq> 0 then x else 604800 | None \<Rightarrow> 604800)))]
      in (Compact ''HS256'' c (Mac s ''HS256'' c), w\<lparr>n_clock := Suc (Suc (n_clock w))\<rparr>))"
  by (simp add: create_device_specific_jwt_def now_def jwt_encode_def JWT_ALGORITHM_def
      JWT_ACCESS_TOKEN_EXPIRE_DAYS_def days_def Let_def split: option.splits)

lemma first_index_Some:
  "first_index P xs = Some i \<Longrightarrow> i < length xs \<and> P (xs ! i) \<and> (\<forall>j < i. \<not> P (xs ! j))"
proof (induction xs arbitrary: i)
  case Nil
  then show ?case by simp
next
  case (Cons x xs)
  then show ?case
    by (auto split: if_splits simp: nth_Cons less_Suc_eq_0_disj split: nat.splits)
qed


lemma first_index_append_Some:
  "first_index P xs = Some i \<Longrightarrow> first_index P (xs @ ys) = Some i"
  by (induction xs arbitrary: i) (auto split: if_splits)

lemma first_index_snoc_None:
  "first_index P xs = None \<Longrightarrow> first_index P (xs @ [y]) = (if P y then Some (length xs) else None)"
  by (induction xs) (auto split: if_splits)








lemma owned_active_touch:
  "owned_active fp u (row\<lparr>last_used_at := t\<rparr>) = owned_active fp u row"
  by (simp add: owned_active_def)

lemma first_index_update_same:
  assumes "first_index P xs = Some i" "\<forall>x. P (f x) = P x"
  shows "first_index P (xs[i := f (xs ! i)]) = Some i"
  using assms
proof (induction xs arbitrary: i)
  case Nil
  then show ?case by simp
next
  case (Cons x xs)
  then show ?case
    by (cases "P x") (auto split: if_splits)
qed

lemma get_or_create_found:
  assumes "first_index (owned_active fp u) (devices w) = Some i" "clean w"
    and "get_or_create_device_for_fingerprint fp n ty u w = (Inr dev, w')"
  shows "dev = (devices w ! i)\<lparr>last_used_at := clock w (n_clock w)\<rparr>
       \<and> devices w' = (devices w)[i := dev] \<and> users w' = users w \<and> clean w'
       \<and> clock w' = clock w \<and> n_clock w' = Suc (n_clock w)"
  using assms first_index_Some[OF assms(1)]
  by (auto simp: get_or_create_device_for_fingerprint_def now_def set_last_used_at_def
      db_commit_def flush_def touch_def clean_def Let_def split: if_splits)

lemma get_or_create_new:
  assumes "first_index (owned_active fp u) (devices w) = None" "clean w"
    and "get_or_create_device_for_fingerprint fp n ty u w = (Inr dev, w')"
  shows "dev = \<lparr>device_id = fp, device_name = n, device_type = ty,
                jwt_secret_key = secrets w (n_secret w), user_id = u, is_active = True,
                last_used_at = clock w (n_clock w), dev_created_at = clock w (n_clock w),
                dev_updated_at = clock w (n_clock w)\<rparr>
       \<and> devices w' = devices w @ [dev] \<and> users w' = users w \<and> clean w'
       \<and> clock w' = clock w \<and> n_clock w' = Suc (n_clock w)"
  using assms
  by (auto simp: get_or_create_device_for_fingerprint_def now_def token_urlsafe_def
      db_add_device_def db_commit_def flush_def clean_def Let_def split: if_splits)

lemma get_or_create_resolves:
  assumes "clean w"
    and "get_or_create_device_for_fingerprint fp n ty u w = (Inr dev, w')"
  shows "\<exists>i. first_index (owned_active fp u) (devices w') = Some i \<and> devices w' ! i = dev
       \<and> device_id dev = fp \<and> last_used_at dev = clock w (n_clock w)
       \<and> length (devices w') = (case first_index (owned_active fp u) (devices w) of
             Some j \<Rightarrow> length (devices w) | None \<Rightarrow> Suc (length (devices w)))
       \<and> users w' = users w \<and> clean w' \<and> clock w' = clock w \<and> n_clock w' = Suc (n_clock w)"
proof (cases "first_index (owned_active fp u) (devices w)")
  case None
  from get_or_create_new[OF None assms] first_index_snoc_None[OF None, of dev]
  show ?thesis by (auto simp: None owned_active_def)
next
  case (Some i)
  note f = get_or_create_found[OF Some assms]
  from first_index_Some[OF Some] have i: "i < length (devices w)" "owned_active fp u (devices w ! i)"
    by auto
  have "first_index (owned_active fp u)
          ((devices w)[i := (\<lambda>r. r\<lparr>last_used_at := clock w (n_clock w)\<rparr>) (devices w ! i)]) = Some i"
    by (rule first_index_update_same[OF Some]) (simp add: owned_active_touch)
  with f i show ?thesis by (auto simp: Some owned_active_def)
qed

lemmas handler_defs =
  uuid4_def now_def token_urlsafe_def db_add_user_def db_add_device_def db_commit_def flush_def
  db_rollback_def respond_def UserResponse_of_ok create_device_specific_jwt_eq Let_def

lemma register_appends:
  assumes "register r w = (Inr res, w')" "clean w"
  shows "devices w' = devices w @ [web_device (uuids w (Suc (n_uuid w))) (secrets w (n_secret w))
            (uuids w (n_uuid w)) (clock w (n_clock w))]"
  using assms
  by (auto simp: register_def register_try_def handler_defs clean_def
      split: option.splits if_splits)

lemma login_appends:
  assumes "login r w = (Inr res, w')" "clean w"
    and "find (\<lambda>x. email x = req_email r) (users w) = Some row"
  shows "devices w' = devices w @ [web_device (uuids w (n_uuid w)) (secrets w (n_secret w))
            (uid row) (clock w (n_clock w))]"
  using assms
  by (auto simp: login_def login_try_def handler_defs clean_def split: if_splits)

lemma auto_login_appends:
  assumes "auto_login w = (Inr res, w')" "clean w"
  shows "devices w' = devices w @
           [case users w of
              [] \<Rightarrow> web_device (uuids w (Suc (n_uuid w))) (secrets w (n_secret w))
                      (uuids w (n_uuid w)) (clock w (n_clock w))
            | u # rest \<Rightarrow> web_device (uuids w (n_uuid w)) (secrets w (n_secret w))
                      (uid u) (clock w (n_clock w))]"
  using assms
  by (auto simp: auto_login_def auto_login_try_def handler_defs clean_def
      split: list.splits if_splits)

lemmas demo_defs =
  demo_world_def home_world_def alice_def phone_def laptop_def alice_request_def
  new_user_def web_device_def

subsection \<open>Provisioning a device on register, login and auto-login\<close>

text \<open>
  C9. Every successful call of register, of login with an e-mail that is already known,
  and of auto_login appends exactly one device row to the table and touches no other:
  its device_id is the next value of the UUID generator (the requests carry no
  fingerprint), its secret the next value of the secret generator, its owner the user
  the call resolved or created, so the number of that user's device rows grows by one.
\<close>

theorem fresh_device_on_every_login:
  assumes "clean w"
  shows "(\<forall>res w'. register r w = (Inr res, w') \<longrightarrow>
            (\<exists>dev. devices w' = devices w @ [dev]
               \<and> device_id dev = uuids w (Suc (n_uuid w))
               \<and> jwt_secret_key dev = secrets w (n_secret w)
               \<and> user_id dev = uuids w (n_uuid w) \<and> is_active dev
               \<and> length (devices_of (user_id dev) w') = Suc (length (devices_of (user_id dev) w))))
       \<and> (\<forall>row res w'. find (\<lambda>x. email x = req_email r) (users w) = Some row
              \<and> login r w = (Inr res, w') \<longrightarrow>
            (\<exists>dev. devices w' = devices w @ [dev]
               \<and> device_id dev = uuids w (n_uuid w)
               \<and> jwt_secret_key dev = secrets w (n_secret w)
               \<and> user_id dev = uid row \<and> is_active dev
               \<and> length (devices_of (uid row) w') = Suc (length (devices_of (uid row) w))))
       \<and> (\<forall>res w'. auto_login w = (Inr res, w') \<longrightarrow>
            (\<exists>dev. devices w' = devices w @ [dev]
               \<and> device_id dev = uuids w (if users w = [] then Suc (n_uuid w) else n_uuid w)
               \<and> jwt_secret_key dev = secrets w (n_secret w)
               \<and> user_id dev = (if users w = [] then uuids w (n_uuid w) else uid (hd (users w)))
               \<and> is_active dev
               \<and> length (devices_of (user_id dev) w') = Suc (length (devices_of (user_id dev) w))))"
proof (intro conjI allI impI)
  fix res w'
  assume "register r w = (Inr res, w')"
  from register_appends[OF this assms]
  show "\<exists>dev. devices w' = devices w @ [dev]
               \<and> device_id dev = uuids w (Suc (n_uuid w))
               \<and> jwt_secret_key dev = secrets w (n_secret w)
               \<and> user_id dev = uuids w (n_uuid w) \<and> is_active dev
               \<and> length (devices_of (user_id dev) w') = Suc (length (devices_of (user_id dev) w))"
    by (simp add: web_device_def devices_of_def)
next
  fix row res w'
  assume "find (\<lambda>x. email x = req_email r) (users w) = Some row \<and> login r w = (Inr res, w')"
  then have "devices w' = devices w @ [web_device (uuids w (n_uuid w)) (secrets w (n_secret w))
            (uid row) (clock w (n_clock w))]"
    using login_appends assms by blast
  then show "\<exists>dev. devices w' = devices w @ [dev]
               \<and> device_id dev = uuids w (n_uuid w)
               \<and> jwt_secret_key dev = secrets w (n_secret w)
               \<and> user_id dev = uid row \<and> is_active dev
               \<and> length (devices_of (uid row) w') = Suc (length (devices_of (uid row) w))"
    by (simp add: web_device_def devices_of_def)
next
  fix res w'
  assume "auto_login w = (Inr res, w')"
  from auto_login_appends[OF this assms]
  show "\<exists>dev. devices w' = devices w @ [dev]
               \<and> device_id dev = uuids w (if users w = [] then Suc (n_uuid w) else n_uuid w)
               \<and> jwt_secret_key dev = secrets w (n_secret w)
               \<and> user_id dev = (if users w = [] then uuids w (n_uuid w) else uid (hd (users w)))
               \<and> is_active dev
               \<and> length (devices_of (user_id dev) w') = Suc (length (devices_of (user_id dev) w))"
    by (cases "users w") (simp_all add: web_device_def devices_of_def)
qed

theorem fresh_device_on_every_login_witness:
  "clean demo_world \<and> clean home_world
   \<and> find (\<lambda>x. email x = req_email alice_request) (users home_world) = Some alice
   \<and> (\<exists>res w' dev. register alice_request demo_world = (Inr res, w')
         \<and> devices w' = devices demo_world @ [dev] \<and> device_id dev = ''uu''
         \<and> jwt_secret_key dev = ''k'' \<and> user_id dev = ''u''
         \<and> length (devices_of ''u'' w') = Suc (length (devices_of ''u'' demo_world)))
   \<and> (\<exists>res w' dev. login alice_request home_world = (Inr res, w')
         \<and> devices w' = devices home_world @ [dev] \<and> device_id dev = ''u''
         \<and> user_id dev = ''user-1''
         \<and> length (devices_of ''user-1'' w') = 3)
   \<and> (\<exists>res w' dev. auto_login home_world = (Inr res, w')
         \<and> devices w' = devices home_world @ [dev] \<and> device_id dev = ''u''
         \<and> user_id dev = ''user-1'')"
proof -
  have c1: "clean demo_world" and c2: "clean home_world"
    by (simp_all add: clean_def demo_defs)
  have f: "find (\<lambda>x. email x = req_email alice_request) (users home_world) = Some alice"
    by (simp add: demo_defs)
  have "\<exists>res w'. register alice_request demo_world = (Inr res, w')"
    by (simp add: register_def register_try_def handler_defs demo_defs)
  then obtain r1 w1 where r: "register alice_request demo_world = (Inr r1, w1)"
    by blast
  have "\<exists>res w'. login alice_request home_world = (Inr res, w')"
    by (simp add: login_def login_try_def handler_defs demo_defs)
  then obtain r2 w2 where l: "login alice_request home_world = (Inr r2, w2)"
    by blast
  have "\<exists>res w'. auto_login home_world = (Inr res, w')"
    by (simp add: auto_login_def auto_login_try_def handler_defs demo_defs)
  then obtain r3 w3 where a: "auto_login home_world = (Inr r3, w3)"
    by blast
  have u: "uuids demo_world (Suc (n_uuid demo_world)) = ''uu''"
    "uuids demo_world (n_uuid demo_world) = ''u''"
    "secrets demo_world (n_secret demo_world) = ''k''"
    "uuids home_world (n_uuid home_world) = ''u''" "uid alice = ''user-1''"
    "users home_world \<noteq> []" "uid (hd (users home_world)) = ''user-1''"
    "length (devices_of ''user-1'' home_world) = 2"
    by (simp_all add: demo_defs devices_of_def)
  from fresh_device_on_every_login[OF c1, of alice_request] r u
  have p1: "\<exists>res w' dev. register alice_request demo_world = (Inr res, w')
         \<and> devices w' = devices demo_world @ [dev] \<and> device_id dev = ''uu''
         \<and> jwt_secret_key dev = ''k'' \<and> user_id dev = ''u''
         \<and> length (devices_of ''u'' w') = Suc (length (devices_of ''u'' demo_world))"
    by fastforce
  from fresh_device_on_every_login[OF c2, of alice_request] l f u
  have p2: "\<exists>res w' dev. login alice_request home_world = (Inr res, w')
         \<and> devices w' = devices home_world @ [dev] \<and> device_id dev = ''u''
         \<and> user_id dev = ''user-1''
         \<and> length (devices_of ''user-1'' w') = 3"
    by fastforce
  from fresh_device_on_every_login[OF c2, of alice_request] a u
  have p3: "\<exists>res w' dev. auto_login home_world = (Inr res, w')
         \<and> devices w' = devices home_world @ [dev] \<and> device_id dev = ''u''
         \<and> user_id dev = ''user-1''"
    by fastforce
  from c1 c2 f p1 p2 p3 show ?thesis by blast
qed

subsection \<open>Example tokens\<close>


subsection \<open>The order of the checks in verify_device_token\<close>











subsection \<open>Facts about verification\<close>





subsection \<open>Cross-device rejection\<close>



subsection \<open>Round trip\<close>



subsection \<open>A verified token still needs its user\<close>






subsection \<open>What a caller sees of an authentication failure\<close>







subsection \<open>GET /auth/me\<close>



subsection \<open>Failure after the first commit\<close>

lemma flaky_fields: "users flaky_world = []" "devices flaky_world = []"
  "new_users flaky_world = []" "new_devices flaky_world = []" "dirty flaky_world = []"
  "clock flaky_world = (\<lambda>n. 1000 + int n)" "uuids flaky_world = (\<lambda>n. replicate (Suc n) CHR ''u'')"
  "secrets flaky_world = (\<lambda>n. replicate (Suc n) CHR ''k'')"
  "commit_ok flaky_world = (\<lambda>n. n = 0)"
  "n_clock flaky_world = 0" "n_uuid flaky_world = 0" "n_secret flaky_world = 0"
  "n_commit flaky_world = 0"
  by (simp_all add: flaky_world_def demo_world_def)

text \<open>
  C4 fails on the code. register and auto_connect commit the new user row before they
  create the device row; when the second commit is refused, the handler's rollback drops
  the pending device only, and the call answers 500 while the user row it created stays in
  the table.
\<close>

theorem failed_call_leaves_user_row:
  "fst (register alice_request flaky_world) =
     Inl (HTTPException 500 ''An internal server error occurred during registration'')
   \<and> users (snd (register alice_request flaky_world)) =
       [new_user ''u'' ''alice'' ''alice@example.com'' 1000]
   \<and> devices (snd (register alice_request flaky_world)) = []
   \<and> fst (auto_connect abc_request flaky_world) =
       Inl (HTTPException 500 ''An internal server error occurred during auto-connect'')
   \<and> users (snd (auto_connect abc_request flaky_world)) =
       [new_user ''u'' ''Demo User'' ''demo@example.com'' 1000]
   \<and> devices (snd (auto_connect abc_request flaky_world)) = []"
  by (simp add: register_def register_try_def auto_connect_def auto_connect_try_def
      connect_as_def get_or_create_device_for_fingerprint_def handler_defs flaky_fields
      alice_request_def abc_request_def)

subsection \<open>Facts about auto_connect\<close>

lemma connect_as_resolves:
  assumes "clean w" "connect_as r row w = (Inr res, w')"
  shows "\<exists>i. first_index (owned_active (device_fingerprint r) (uid row)) (devices w') = Some i
       \<and> last_used_at (devices w' ! i) = clock w (n_clock w)
       \<and> dict_get (claims_of (access_token res)) ''device_id'' = PStr (device_fingerprint r)
       \<and> dict_get (claims_of (access_token res)) ''sub'' = PStr (uid row)
       \<and> users w' = users w \<and> clean w' \<and> clock w' = clock w \<and> n_clock w' = n_clock w + 3"
proof -
  let ?g = "get_or_create_device_for_fingerprint (device_fingerprint r) (req_device_name r)
              (req_device_type r) (uid row) w"
  obtain x w1 where g: "?g = (x, w1)" by (cases ?g)
  with assms(2) obtain dev where x: "x = Inr dev"
    by (cases x) (auto simp: connect_as_def)
  from get_or_create_resolves[OF assms(1) g[unfolded x]] obtain i where
    i: "first_index (owned_active (device_fingerprint r) (uid row)) (devices w1) = Some i"
      "devices w1 ! i = dev" "device_id dev = device_fingerprint r"
      "last_used_at dev = clock w (n_clock w)" "users w1 = users w" "clean w1"
      "clock w1 = clock w" "n_clock w1 = Suc (n_clock w)"
    by blast
  from assms(2) have "w' = w1\<lparr>n_clock := Suc (Suc (n_clock w1))\<rparr>"
    and "claims_of (access_token res) =
           [(''sub'', PStr (uid row)), (''device_id'', PStr (device_id dev)),
            (''iat'', PInt (clock w1 (n_clock w1))),
            (''exp'', PInt (clock w1 (Suc (n_clock w1)) + 604800))]"
    by (auto simp: connect_as_def g x create_device_specific_jwt_eq respond_def
        UserResponse_of_ok Let_def claims_of_def)
  with i show ?thesis
    by (auto simp: clean_def dict_get_def)
qed

lemma connect_as_new:
  assumes "clean w" "connect_as r row w = (Inr res, w')"
    and "first_index (owned_active (device_fingerprint r) (uid row)) (devices w) = None"
  shows "\<exists>dev. devices w' = devices w @ [dev] \<and> device_id dev = device_fingerprint r
           \<and> user_id dev = uid row \<and> is_active dev"
proof -
  let ?g = "get_or_create_device_for_fingerprint (device_fingerprint r) (req_device_name r)
              (req_device_type r) (uid row) w"
  obtain x w1 where g: "?g = (x, w1)" by (cases ?g)
  with assms(2) obtain dev where x: "x = Inr dev"
    by (cases x) (auto simp: connect_as_def)
  from get_or_create_new[OF assms(3,1) g[unfolded x]]
  have d: "devices w1 = devices w @ [dev]" "device_id dev = device_fingerprint r"
    "user_id dev = uid row" "is_active dev"
    by simp_all
  from assms(2) have "w' = w1\<lparr>n_clock := Suc (Suc (n_clock w1))\<rparr>"
    by (auto simp: connect_as_def g x create_device_specific_jwt_eq respond_def
        UserResponse_of_ok Let_def)
  with d show ?thesis by simp
qed

lemma connect_as_found:
  assumes "clean w" "connect_as r row w = (Inr res, w')"
    and "first_index (owned_active (device_fingerprint r) (uid row)) (devices w) = Some i"
  shows "devices w' = (devices w)[i := (devices w ! i)\<lparr>last_used_at := clock w (n_clock w)\<rparr>]"
proof -
  let ?g = "get_or_create_device_for_fingerprint (device_fingerprint r) (req_device_name r)
              (req_device_type r) (uid row) w"
  obtain x w1 where g: "?g = (x, w1)" by (cases ?g)
  with assms(2) obtain dev where x: "x = Inr dev"
    by (cases x) (auto simp: connect_as_def)
  from get_or_create_found[OF assms(3,1) g[unfolded x]]
  have d: "devices w1 = (devices w)[i := (devices w ! i)\<lparr>last_used_at := clock w (n_clock w)\<rparr>]"
    by simp
  from assms(2) have "w' = w1\<lparr>n_clock := Suc (Suc (n_clock w1))\<rparr>"
    by (auto simp: connect_as_def g x create_device_specific_jwt_eq respond_def
        UserResponse_of_ok Let_def)
  with d show ?thesis by simp
qed

lemma auto_connect_success:
  assumes "auto_connect r w = (Inr res, w')" "clean w"
  shows "\<exists>row wm. connect_as r row wm = (Inr res, w') \<and> clean wm \<and> devices wm = devices w
           \<and> clock wm = clock w \<and> n_clock w \<le> n_clock wm
           \<and> users wm = (if users w = [] then [row] else users w) \<and> row = hd (users wm)"
proof (cases "users w")
  case (Cons u rest)
  with assms have "connect_as r u w = (Inr res, w')"
    by (auto simp: auto_connect_def auto_connect_try_def split: prod.splits sum.splits)
  with assms(2) Cons show ?thesis
    by (intro exI[of _ u] exI[of _ w]) simp
next
  case Nil
  let ?row = "new_user (uuids w (n_uuid w)) ''Demo User'' ''demo@example.com'' (clock w (n_clock w))"
  let ?wm = "flush (w\<lparr>n_uuid := Suc (n_uuid w), n_clock := Suc (n_clock w),
                      new_users := new_users w @ [?row], n_commit := Suc (n_commit w)\<rparr>)"
  from assms Nil have "connect_as r ?row ?wm = (Inr res, w')"
    by (auto simp: auto_connect_def auto_connect_try_def uuid4_def now_def db_add_user_def
        db_commit_def Let_def split: prod.splits sum.splits if_splits)
  moreover have "clean ?wm" "devices ?wm = devices w" "clock ?wm = clock w"
    "n_clock w \<le> n_clock ?wm" "users ?wm = [?row]"
    using assms(2) Nil by (simp_all add: flush_def clean_def)
  ultimately show ?thesis using Nil
    by (intro exI[of _ ?row] exI[of _ ?wm]) simp
qed

subsection \<open>Fingerprint idempotence\<close>

text \<open>
  C6. Two auto_connect calls in sequence with the same fingerprint, both successful, on
  a clock that does not run backwards: both tokens carry the fingerprint as device_id, the
  second call adds no device row and no user row, and the row that the fingerprint
  resolves to for the (first) user is the same row after both calls, its last_used_at
  after the second call at least its value after the first. The first call may find the
  user and the device or create them; name and type of the device may differ between the
  calls.
\<close>

theorem fingerprint_idempotence:
  assumes "clean w0" "monotone_clock w0"
    and c1: "auto_connect r1 w0 = (Inr res1, w1)"
    and c2: "auto_connect r2 w1 = (Inr res2, w2)"
    and same: "device_fingerprint r2 = device_fingerprint r1"
  shows "dict_get (claims_of (access_token res1)) ''device_id'' = PStr (device_fingerprint r1)
       \<and> dict_get (claims_of (access_token res2)) ''device_id'' = PStr (device_fingerprint r1)
       \<and> length (devices w2) = length (devices w1) \<and> users w2 = users w1
       \<and> (\<exists>i. first_index (owned_active (device_fingerprint r1) (uid (hd (users w1))))
                 (devices w1) = Some i
             \<and> first_index (owned_active (device_fingerprint r1) (uid (hd (users w1))))
                 (devices w2) = Some i
             \<and> last_used_at (devices w1 ! i) \<le> last_used_at (devices w2 ! i))"
proof -
  let ?f = "device_fingerprint r1"
  from auto_connect_success[OF c1 assms(1)] obtain row wm where
    a: "connect_as r1 row wm = (Inr res1, w1)" "clean wm" "clock wm = clock w0"
      "users wm = (if users w0 = [] then [row] else users w0)" "row = hd (users wm)"
    by blast
  from connect_as_resolves[OF a(2,1)] obtain i where
    i: "first_index (owned_active ?f (uid row)) (devices w1) = Some i"
      "last_used_at (devices w1 ! i) = clock wm (n_clock wm)"
      "dict_get (claims_of (access_token res1)) ''device_id'' = PStr ?f"
      "users w1 = users wm" "clean w1" "clock w1 = clock wm" "n_clock w1 = n_clock wm + 3"
    by blast
  have ne: "users w1 \<noteq> []" and hd1: "hd (users w1) = row"
    using a(4,5) i(4) by (auto split: if_splits)
  from auto_connect_success[OF c2 i(5)] ne obtain row' vm where
    b: "connect_as r2 row' vm = (Inr res2, w2)" "clean vm" "devices vm = devices w1"
      "clock vm = clock w1" "n_clock w1 \<le> n_clock vm" "users vm = users w1"
      "row' = hd (users vm)"
    by auto
  have row': "row' = row" using b(6,7) hd1 by simp
  from connect_as_resolves[OF b(2,1)] have
    j: "dict_get (claims_of (access_token res2)) ''device_id'' = PStr ?f" "users w2 = users vm"
    by (auto simp: same)
  have fi: "first_index (owned_active (device_fingerprint r2) (uid row')) (devices vm) = Some i"
    using i(1) by (simp add: same row' b(3))
  from connect_as_found[OF b(2,1) fi]
  have d2: "devices w2 = (devices w1)[i := (\<lambda>r. r\<lparr>last_used_at := clock vm (n_clock vm)\<rparr>)
              (devices w1 ! i)]"
    by (simp add: b(3))
  have il: "i < length (devices w1)"
    using first_index_Some[OF i(1)] by simp
  have f2: "first_index (owned_active ?f (uid row)) (devices w2) = Some i"
    unfolding d2 by (rule first_index_update_same[OF i(1)]) (simp add: owned_active_touch)
  have "n_clock wm \<le> n_clock vm"
    using i(7) b(5) by simp
  then have "clock w0 (n_clock wm) \<le> clock w0 (n_clock vm)"
    using assms(2) by (simp add: monotone_clock_def)
  then have le: "last_used_at (devices w1 ! i) \<le> last_used_at (devices w2 ! i)"
    using il by (simp add: d2 i(2,6) b(4) a(3))
  from i(1,3) j f2 le show ?thesis
    by (simp add: hd1 d2 b(6))
qed

lemmas connect_defs =
  auto_connect_def auto_connect_try_def connect_as_def get_or_create_device_for_fingerprint_def
  handler_defs set_last_used_at_def touch_def owned_active_def abc_request_def xyz_request_def

lemma demo_fields: "users demo_world = []" "devices demo_world = []"
  "new_users demo_world = []" "new_devices demo_world = []" "dirty demo_world = []"
  "clock demo_world = (\<lambda>n. 1000 + int n)" "uuids demo_world = (\<lambda>n. replicate (Suc n) CHR ''u'')"
  "secrets demo_world = (\<lambda>n. replicate (Suc n) CHR ''k'')"
  "commit_ok demo_world = (\<lambda>n. True)"
  "n_clock demo_world = 0" "n_uuid demo_world = 0" "n_secret demo_world = 0"
  "n_commit demo_world = 0"
  by (simp_all add: demo_world_def)

lemma demo_ok: "clean demo_world" "monotone_clock demo_world" "fk_ok demo_world"
  by (simp_all add: clean_def monotone_clock_def fk_ok_def demo_fields)

lemma first_visit: "\<exists>res w. auto_connect abc_request demo_world = (Inr res, w)"
  by (simp add: connect_defs demo_fields)

lemma same_visit:
  "\<exists>res w. auto_connect abc_request (snd (auto_connect abc_request demo_world)) = (Inr res, w)"
  by (simp add: connect_defs demo_fields)

lemma other_visit:
  "\<exists>res w. auto_connect xyz_request (snd (auto_connect abc_request demo_world)) = (Inr res, w)"
  by (simp add: connect_defs demo_fields)

theorem fingerprint_idempotence_witness:
  "clean demo_world \<and> monotone_clock demo_world
   \<and> (\<exists>res1 w1 res2 w2. auto_connect abc_request demo_world = (Inr res1, w1)
        \<and> auto_connect abc_request w1 = (Inr res2, w2)
        \<and> dict_get (claims_of (access_token res1)) ''device_id'' = PStr ''abc123''
        \<and> dict_get (claims_of (access_token res2)) ''device_id'' = PStr ''abc123''
        \<and> length (devices w2) = length (devices w1) \<and> users w2 = users w1)"
proof -
  from first_visit obtain res1 w1 where c1: "auto_connect abc_request demo_world = (Inr res1, w1)"
    by blast
  with same_visit obtain res2 w2 where c2: "auto_connect abc_request w1 = (Inr res2, w2)"
    by auto
  have f: "device_fingerprint abc_request = ''abc123''"
    by (simp add: abc_request_def)
  from fingerprint_idempotence[OF demo_ok(1,2) c1 c2 refl] c1 c2 demo_ok(1,2) show ?thesis
    unfolding f by blast
qed

subsection \<open>Provisioning from a store without users\<close>

text \<open>
  C7. From a store without users (and so, by the foreign key, without devices), a
  successful auto_connect leaves exactly one user row and one device row; a second
  successful auto_connect with another fingerprint leaves the user table as it is and adds
  exactly one device row, owned by that same user; each row carries the fingerprint of its
  call as device_id, and both tokens name that user as subject.
\<close>

theorem provisioning:
  assumes "clean w0" "users w0 = []" "fk_ok w0"
    and c1: "auto_connect r1 w0 = (Inr res1, w1)"
    and c2: "auto_connect r2 w1 = (Inr res2, w2)"
    and other: "device_fingerprint r2 \<noteq> device_fingerprint r1"
  shows "\<exists>usr d1 d2. users w1 = [usr] \<and> devices w1 = [d1]
           \<and> users w2 = [usr] \<and> devices w2 = [d1, d2]
           \<and> device_id d1 = device_fingerprint r1 \<and> user_id d1 = uid usr
           \<and> device_id d2 = device_fingerprint r2 \<and> user_id d2 = uid usr
           \<and> dict_get (claims_of (access_token res1)) ''sub'' = PStr (uid usr)
           \<and> dict_get (claims_of (access_token res2)) ''sub'' = PStr (uid usr)"
proof -
  have nodev: "devices w0 = []"
    using assms(2,3) by (cases "devices w0") (auto simp: fk_ok_def)
  from auto_connect_success[OF c1 assms(1)] assms(2) nodev obtain row wm where
    a: "connect_as r1 row wm = (Inr res1, w1)" "clean wm" "devices wm = []" "users wm = [row]"
    by auto
  from connect_as_resolves[OF a(2,1)] have
    i: "dict_get (claims_of (access_token res1)) ''sub'' = PStr (uid row)"
      "users w1 = [row]" "clean w1"
    by (auto simp: a(4))
  have "first_index (owned_active (device_fingerprint r1) (uid row)) (devices wm) = None"
    by (simp add: a(3))
  from connect_as_new[OF a(2,1) this] obtain d1 where
    d1: "devices w1 = [d1]" "device_id d1 = device_fingerprint r1" "user_id d1 = uid row"
    by (auto simp: a(3))
  from auto_connect_success[OF c2 i(3)] i(2) obtain row' vm where
    b: "connect_as r2 row' vm = (Inr res2, w2)" "clean vm" "devices vm = [d1]"
      "users vm = [row]" "row' = hd (users vm)"
    by (auto simp: d1(1))
  have row': "row' = row" using b(4,5) by simp
  from connect_as_resolves[OF b(2,1)] have
    j: "dict_get (claims_of (access_token res2)) ''sub'' = PStr (uid row)" "users w2 = [row]"
    by (auto simp: row' b(4))
  have "first_index (owned_active (device_fingerprint r2) (uid row')) (devices vm) = None"
    using other by (simp add: b(3) owned_active_def d1(2))
  from connect_as_new[OF b(2,1) this] obtain d2 where
    d2: "devices w2 = [d1, d2]" "device_id d2 = device_fingerprint r2" "user_id d2 = uid row"
    by (auto simp: b(3) row')
  from i j d1 d2 show ?thesis by blast
qed

theorem provisioning_witness:
  "clean demo_world \<and> users demo_world = [] \<and> fk_ok demo_world
   \<and> device_fingerprint xyz_request \<noteq> device_fingerprint abc_request
   \<and> (\<exists>res1 w1 res2 w2 usr d1 d2. auto_connect abc_request demo_world = (Inr res1, w1)
        \<and> auto_connect xyz_request w1 = (Inr res2, w2)
        \<and> users w1 = [usr] \<and> devices w1 = [d1] \<and> users w2 = [usr] \<and> devices w2 = [d1, d2]
        \<and> device_id d1 = ''abc123'' \<and> device_id d2 = ''xyz999''
        \<and> user_id d1 = uid usr \<and> user_id d2 = uid usr)"
proof -
  from first_visit obtain res1 w1 where c1: "auto_connect abc_request demo_world = (Inr res1, w1)"
    by blast
  with other_visit obtain res2 w2 where c2: "auto_connect xyz_request w1 = (Inr res2, w2)"
    by auto
  have f: "device_fingerprint abc_request = ''abc123''" "device_fingerprint xyz_request = ''xyz999''"
    by (simp_all add: abc_request_def xyz_request_def)
  then have o: "device_fingerprint xyz_request \<noteq> device_fingerprint abc_request"
    by simp
  from provisioning[OF demo_ok(1) demo_fields(1) demo_ok(3) c1 c2 o]
  obtain usr d1 d2 where "users w1 = [usr]" "devices w1 = [d1]" "users w2 = [usr]"
    "devices w2 = [d1, d2]" "device_id d1 = ''abc123''" "device_id d2 = ''xyz999''"
    "user_id d1 = uid usr" "user_id d2 = uid usr"
    unfolding f by blast
  with c1 c2 demo_ok(1,3) demo_fields(1) o show ?thesis by blast
qed

end
